theory Spec2Isabelle
  imports Complex_Main
begin

section \<open>Python values used by the pipeline\<close>

text \<open>
  The exceptions the modelled code can raise. \<open>ValueError\<close> is what \<open>range\<close> raises for a
  zero step, \<open>ZeroDivisionError\<close> what \<open>//\<close> raises for a zero divisor, \<open>UnpicklingError\<close>
  stands for what \<open>pickle.load\<close> raises on a file that does not hold a complete pickle
  (\<open>EOFError\<close> on an empty file), and \<open>TypeError\<close> is calling \<open>None\<close>.
\<close>

datatype py_error = ValueError | ZeroDivisionError | UnpicklingError | TypeError

text \<open>
  \<open>str.isspace\<close> on one character, for code points below 256: the ASCII whitespace
  characters \<open>\t \n \v \f \r\<close>, the separators \<open>0x1c .. 0x1f\<close>, the blank, and \<open>0x85\<close>,
  \<open>0xa0\<close>. A \<open>char\<close> is one code point below 256 here.
\<close>

definition isspace :: "char \<Rightarrow> bool" where
  "isspace c = (of_char c \<in> {9, 10, 11, 12, 13, 28, 29, 30, 31, 32, 133, 160 :: nat})"

text \<open>
  \<open>text.split()\<close> with no argument: the maximal runs of non-whitespace characters, in
  order; the first argument is the word read so far.
\<close>

fun split_words :: "string \<Rightarrow> string \<Rightarrow> string list" where
  "split_words w [] = (if w = [] then [] else [w])"
| "split_words w (c # cs) =
     (if isspace c then (if w = [] then split_words [] cs else w # split_words [] cs)
      else split_words (w @ [c]) cs)"

definition py_split :: "string \<Rightarrow> string list" where
  "py_split s = split_words [] s"

text \<open>\<open>" ".join(ws)\<close>.\<close>

fun join_space :: "string list \<Rightarrow> string" where
  "join_space [] = []"
| "join_space [w] = w"
| "join_space (w # v # ws) = w @ '' '' @ join_space (v # ws)"

text \<open>
  A slice \<open>xs[lo:hi]\<close>: a negative bound counts from the end, and both bounds are clipped
  to \<open>0 .. len(xs)\<close>.
\<close>

definition slice_bound :: "nat \<Rightarrow> int \<Rightarrow> int" where
  "slice_bound n k = (if k < 0 then max (k + int n) 0 else min k (int n))"

definition py_slice :: "'a list \<Rightarrow> int \<Rightarrow> int \<Rightarrow> 'a list" where
  "py_slice xs lo hi =
     (let a = slice_bound (length xs) lo; b = slice_bound (length xs) hi
      in take (nat (b - a)) (drop (nat a) xs))"

text \<open>
  \<open>range(start, stop, step)\<close>: a zero step raises \<open>ValueError\<close>, a positive step counts
  up while below \<open>stop\<close>, a negative step counts down while above \<open>stop\<close>.
\<close>

function range_up :: "int \<Rightarrow> int \<Rightarrow> int \<Rightarrow> int list" where
  "range_up i stop step =
     (if 0 < step \<and> i < stop then i # range_up (i + step) stop step else [])"
  by pat_completeness auto
termination
  by (relation "measure (\<lambda>(i, stop, step). nat (stop - i))") auto

function range_down :: "int \<Rightarrow> int \<Rightarrow> int \<Rightarrow> int list" where
  "range_down i stop step =
     (if step < 0 \<and> stop < i then i # range_down (i + step) stop step else [])"
  by pat_completeness auto
termination
  by (relation "measure (\<lambda>(i, stop, step). nat (i - stop))") auto

declare range_up.simps [simp del] range_down.simps [simp del]

definition py_range :: "int \<Rightarrow> int \<Rightarrow> int \<Rightarrow> py_error + int list" where
  "py_range start stop step =
     (if step = 0 then Inl ValueError
      else if 0 < step then Inr (range_up start stop step)
      else Inr (range_down start stop step))"


section \<open>The chunker: \<open>PDFProcessor.chunk_text\<close>\<close>

text \<open>
  One chunk dictionary; the key \<open>"text"\<close> is the field \<open>text_field\<close>.
\<close>

record chunk =
  text_field :: string
  chunk_index :: int
  estimated_page :: int
  word_count :: int

text \<open>
  The body of the \<open>for\<close> loop, run over the values of the range, with the list \<open>chunks\<close>
  built so far. The division \<open>i // self.chunk_size\<close> raises for a zero chunk size.
\<close>

fun chunk_loop :: "int \<Rightarrow> string list \<Rightarrow> chunk list \<Rightarrow> int list \<Rightarrow> py_error + chunk list" where
  "chunk_loop chunk_size words chunks [] = Inr chunks"
| "chunk_loop chunk_size words chunks (i # is) =
     (let chunk_words = py_slice words i (i + chunk_size);
          chunk_text = join_space chunk_words
      in if chunk_size = 0 then Inl ZeroDivisionError
         else chunk_loop chunk_size words
                (chunks @ [\<lparr>text_field = chunk_text,
                            chunk_index = int (length chunks),
                            estimated_page = i div chunk_size + 1,
                            word_count = int (length chunk_words)\<rparr>]) is)"

text \<open>
  \<open>chunk_text\<close>, with the two settings \<open>self.chunk_size\<close> and \<open>self.chunk_overlap\<close> as
  arguments. Both are Python integers read from the configuration, so any integer can
  arrive.
\<close>

definition chunk_text :: "int \<Rightarrow> int \<Rightarrow> string \<Rightarrow> py_error + chunk list" where
  "chunk_text chunk_size chunk_overlap text =
     (let words = py_split text
      in case py_range 0 (int (length words)) (chunk_size - chunk_overlap) of
           Inl e \<Rightarrow> Inl e
         | Inr is \<Rightarrow> chunk_loop chunk_size words [] is)"

subsection \<open>The chunker as the specification describes it\<close>

text \<open>
  The number of sliding windows over \<open>n\<close> words: one for each start offset \<open>0, step,
  2 * step, ...\<close> below \<open>n\<close> (lemma \<open>n_windows_iff\<close> below).
\<close>

definition n_windows :: "nat \<Rightarrow> int \<Rightarrow> nat" where
  "n_windows n step = nat ((int n + step - 1) div step)"

text \<open>
  The chunk of the \<open>k\<close>-th window, in the specification's words: the window of
  \<open>chunk_size_words\<close> words that starts at offset \<open>k * (chunk_size_words - overlap_words)\<close>,
  with \<open>chunk_index\<close> the emission order and \<open>estimated_page\<close> the floor of the start
  offset over the chunk size, plus one.
\<close>

definition window_chunk :: "int \<Rightarrow> int \<Rightarrow> string list \<Rightarrow> nat \<Rightarrow> chunk" where
  "window_chunk chunk_size_words overlap_words ws k =
     (let start_offset = int k * (chunk_size_words - overlap_words);
          window = take (nat chunk_size_words) (drop (nat start_offset) ws)
      in \<lparr>text_field = join_space window,
          chunk_index = int k,
          estimated_page = \<lfloor>real_of_int start_offset / real_of_int chunk_size_words\<rfloor> + 1,
          word_count = int (length window)\<rparr>)"

text \<open>
  The word positions a chunk covers, read off its own fields for a given step: it starts
  at \<open>chunk_index * step\<close> and holds \<open>word_count\<close> words. The overlap of two chunks is the
  number of word positions both cover.
\<close>

definition start_offset :: "int \<Rightarrow> chunk \<Rightarrow> int" where
  "start_offset step c = chunk_index c * step"

definition end_offset :: "int \<Rightarrow> chunk \<Rightarrow> int" where
  "end_offset step c = start_offset step c + word_count c"

definition overlap_between :: "int \<Rightarrow> chunk \<Rightarrow> chunk \<Rightarrow> int" where
  "overlap_between step c1 c2 =
     max 0 (min (end_offset step c1) (end_offset step c2)
            - max (start_offset step c1) (start_offset step c2))"

text \<open>A word as \<open>split\<close> returns it: not empty, and free of whitespace.\<close>

definition word_ok :: "string \<Rightarrow> bool" where
  "word_ok w = (w \<noteq> [] \<and> list_all (\<lambda>c. \<not> isspace c) w)"


section \<open>The retrieval pipeline: \<open>RAGPipeline\<close>\<close>

subsection \<open>The vector store and the remote services\<close>

text \<open>
  A metadata dictionary (string keys, integer values, in insertion order) and a stored
  document.
\<close>

type_synonym metadata = "(string \<times> int) list"

record document =
  page_content :: string
  metadata :: metadata

text \<open>
  Modelled from the spec: the \<open>FAISS\<close> vector store class is imported from a library and
  is not part of the repository. Following the specification's data model, a vector index
  is a collection of (vector, chunk text, metadata) entries kept in insertion order;
  \<open>docstore._dict.values()\<close> are the documents of the entries.
\<close>

type_synonym 'v vectorstore = "('v \<times> document) list"

definition docstore_values :: "'v vectorstore \<Rightarrow> document list" where
  "docstore_values vs = map snd vs"

text \<open>
  Modelled from the spec: \<open>FAISS.from_texts\<close> (the specification's \<open>build\<close>) makes one
  entry per text, positionally aligned with the vectors the embedding service returns.
  The embedding service is the function \<open>emb\<close>: the same text gets the same vector.
\<close>

definition from_texts :: "(string \<Rightarrow> 'v) \<Rightarrow> string list \<Rightarrow> metadata list \<Rightarrow> 'v vectorstore" where
  "from_texts emb texts metadatas =
     map (\<lambda>(t, m). (emb t, \<lparr>page_content = t, metadata = m\<rparr>)) (zip texts metadatas)"

text \<open>
  Modelled from the spec: \<open>add_documents\<close> (the specification's append) adds one entry per
  given document after the existing entries, which it leaves as they are. It is handed
  documents only (text and metadata, no vectors), so the vectors of the added entries
  are computed from the documents' texts.
\<close>

definition add_documents :: "(string \<Rightarrow> 'v) \<Rightarrow> 'v vectorstore \<Rightarrow> document list \<Rightarrow> 'v vectorstore" where
  "add_documents emb vs docs = vs @ map (\<lambda>d. (emb (page_content d), d)) docs"

text \<open>
  Modelled from the spec: \<open>search(index, query_vector, k)\<close> returns up to \<open>k\<close> nearest
  entries, nearest first, ties in insertion order. Nearness is a distance \<open>distance\<close> into a
  linear order, smaller meaning more similar; \<open>sort_key\<close> is stable.
\<close>

definition similarity_search ::
  "('v \<Rightarrow> 'v \<Rightarrow> 'o::linorder) \<Rightarrow> 'v vectorstore \<Rightarrow> 'v \<Rightarrow> nat \<Rightarrow> document list" where
  "similarity_search distance vs q k = take k (map snd (sort_key (\<lambda>e. distance q (fst e)) vs))"

text \<open>
  A project's index file \<open>project_<id>.pkl\<close>: a complete pickle of a vector store, or a
  file opened for writing whose pickle has not been written completely.
\<close>

datatype 'v index_file = Pickled "'v vectorstore" | Incomplete

text \<open>
  What the pipeline reads and changes: the index files by project id, the batches of
  texts sent to the embedding service, the questions (with their context documents) sent
  to the generation service, and \<open>self.qa_chain\<close> (the store and the \<open>k\<close> of its retriever).
\<close>

record 'v world =
  files :: "int \<Rightarrow> 'v index_file option"
  embed_calls :: "string list list"
  llm_calls :: "(string \<times> document list) list"
  qa_chain :: "('v vectorstore \<times> nat) option"

subsection \<open>The methods\<close>

definition create_embeddings ::
  "(string \<Rightarrow> 'v) \<Rightarrow> chunk list \<Rightarrow> int \<Rightarrow> 'v world \<Rightarrow> 'v vectorstore \<times> 'v world" where
  "create_embeddings emb chunks file_id w =
     (let texts = map text_field chunks;
          metadatas = map (\<lambda>chunk. [(''file_id'', file_id),
                                      (''chunk_index'', chunk_index chunk),
                                      (''estimated_page'', estimated_page chunk),
                                      (''word_count'', word_count chunk)]) chunks
      in (from_texts emb texts metadatas, w\<lparr>embed_calls := embed_calls w @ [texts]\<rparr>))"

definition load_vectorstore :: "int \<Rightarrow> 'v world \<Rightarrow> py_error + 'v vectorstore option" where
  "load_vectorstore project_id w =
     (case files w project_id of
        Some (Pickled vectorstore) \<Rightarrow> Inr (Some vectorstore)
      | Some Incomplete \<Rightarrow> Inl UnpicklingError
      | None \<Rightarrow> Inr None)"

text \<open>
  \<open>save_vectorstore\<close> is two steps: \<open>open(index_path, "wb")\<close> creates the file or cuts an
  existing one to length zero, then \<open>pickle.dump\<close> writes the pickle.
\<close>

definition open_wb :: "int \<Rightarrow> 'v world \<Rightarrow> 'v world" where
  "open_wb project_id w = w\<lparr>files := (files w)(project_id \<mapsto> Incomplete)\<rparr>"

definition pickle_dump :: "'v vectorstore \<Rightarrow> int \<Rightarrow> 'v world \<Rightarrow> 'v world" where
  "pickle_dump vectorstore project_id w = w\<lparr>files := (files w)(project_id \<mapsto> Pickled vectorstore)\<rparr>"

definition save_vectorstore :: "'v vectorstore \<Rightarrow> int \<Rightarrow> 'v world \<Rightarrow> 'v world" where
  "save_vectorstore vectorstore project_id w =
     pickle_dump vectorstore project_id (open_wb project_id w)"

definition merge_vectorstores ::
  "(string \<Rightarrow> 'v) \<Rightarrow> 'v vectorstore option \<Rightarrow> 'v vectorstore \<Rightarrow> 'v world
     \<Rightarrow> 'v vectorstore \<times> 'v world" where
  "merge_vectorstores emb existing_vectorstore new_vectorstore w =
     (case existing_vectorstore of
        None \<Rightarrow> (new_vectorstore, w)
      | Some existing \<Rightarrow>
          (add_documents emb existing (docstore_values new_vectorstore),
           w\<lparr>embed_calls := embed_calls w @ [map page_content (docstore_values new_vectorstore)]\<rparr>))"

definition setup_qa_chain :: "'v vectorstore \<Rightarrow> 'v world \<Rightarrow> 'v world" where
  "setup_qa_chain vectorstore w = w\<lparr>qa_chain := Some (vectorstore, 5)\<rparr>"

definition add_documents_to_project ::
  "(string \<Rightarrow> 'v) \<Rightarrow> chunk list \<Rightarrow> int \<Rightarrow> int \<Rightarrow> 'v world
     \<Rightarrow> (py_error + 'v vectorstore) \<times> 'v world" where
  "add_documents_to_project emb chunks file_id project_id w =
     (let (new_vectorstore, w1) = create_embeddings emb chunks file_id w
      in case load_vectorstore project_id w1 of
           Inl e \<Rightarrow> (Inl e, w1)
         | Inr existing_vectorstore \<Rightarrow>
             (let (merged_vectorstore, w2) =
                    merge_vectorstores emb existing_vectorstore new_vectorstore w1;
                  w3 = save_vectorstore merged_vectorstore project_id w2;
                  w4 = setup_qa_chain merged_vectorstore w3
              in (Inr merged_vectorstore, w4)))"

text \<open>
  The same method, statement by statement: the world after \<open>create_embeddings\<close>, after
  \<open>merge_vectorstores\<close> (loading changes nothing), after \<open>open(index_path, "wb")\<close>, after
  \<open>pickle.dump\<close>, and after \<open>setup_qa_chain\<close>. A crash leaves the files of the last world
  reached.
\<close>

definition add_documents_to_project_states ::
  "(string \<Rightarrow> 'v) \<Rightarrow> chunk list \<Rightarrow> int \<Rightarrow> int \<Rightarrow> 'v world \<Rightarrow> 'v world list" where
  "add_documents_to_project_states emb chunks file_id project_id w =
     (let (new_vectorstore, w1) = create_embeddings emb chunks file_id w
      in case load_vectorstore project_id w1 of
           Inl e \<Rightarrow> [w1]
         | Inr existing_vectorstore \<Rightarrow>
             (let (merged_vectorstore, w2) =
                    merge_vectorstores emb existing_vectorstore new_vectorstore w1;
                  w_open = open_wb project_id w2;
                  w3 = pickle_dump merged_vectorstore project_id w_open;
                  w4 = setup_qa_chain merged_vectorstore w3
              in [w1, w2, w_open, w3, w4]))"

text \<open>
  Modelled from the spec: calling the \<open>RetrievalQA\<close> chain embeds the question (one call
  of the embedding service), retrieves the \<open>k\<close> nearest documents of the chain's store, and
  hands the question and the retrieved documents to the generation service \<open>llm\<close>; the
  result holds the generated text and the retrieved documents.
\<close>

definition call_qa_chain ::
  "(string \<Rightarrow> 'v) \<Rightarrow> ('v \<Rightarrow> 'v \<Rightarrow> 'o::linorder) \<Rightarrow> (string \<Rightarrow> document list \<Rightarrow> string)
     \<Rightarrow> string \<Rightarrow> 'v world \<Rightarrow> (py_error + string \<times> document list) \<times> 'v world" where
  "call_qa_chain emb distance llm question w =
     (case qa_chain w of
        None \<Rightarrow> (Inl TypeError, w)
      | Some (vectorstore, k) \<Rightarrow>
          (let w1 = w\<lparr>embed_calls := embed_calls w @ [[question]]\<rparr>;
               source_documents = similarity_search distance vectorstore (emb question) k;
               w2 = w1\<lparr>llm_calls := llm_calls w1 @ [(question, source_documents)]\<rparr>
           in (Inr (llm question source_documents, source_documents), w2)))"

text \<open>
  One entry of \<open>sources\<close>; \<open>page\<close> is \<open>doc.metadata.get("estimated_page", "Unknown")\<close>.
\<close>

datatype page_value = Page int | Unknown

record source =
  content :: string
  source_metadata :: metadata
  page :: page_value

record query_result =
  answer :: string
  sources :: "source list"

definition format_source :: "document \<Rightarrow> source" where
  "format_source doc =
     \<lparr>content = page_content doc,
      source_metadata = metadata doc,
      page = (case map_of (metadata doc) ''estimated_page'' of
                Some p \<Rightarrow> Page p
              | None \<Rightarrow> Unknown)\<rparr>"

definition query ::
  "(string \<Rightarrow> 'v) \<Rightarrow> ('v \<Rightarrow> 'v \<Rightarrow> 'o::linorder) \<Rightarrow> (string \<Rightarrow> document list \<Rightarrow> string)
     \<Rightarrow> string \<Rightarrow> int \<Rightarrow> 'v world \<Rightarrow> (py_error + query_result) \<times> 'v world" where
  "query emb distance llm question project_id w =
     (case load_vectorstore project_id w of
        Inl e \<Rightarrow> (Inl e, w)
      | Inr None \<Rightarrow>
          (Inr \<lparr>answer = ''No documents found in this project. Please upload some PDF files first.'',
                sources = []\<rparr>, w)
      | Inr (Some vectorstore) \<Rightarrow>
          (let w1 = setup_qa_chain vectorstore w
           in case call_qa_chain emb distance llm question w1 of
                (Inl e, w2) \<Rightarrow> (Inl e, w2)
              | (Inr (result, source_documents), w2) \<Rightarrow>
                  (Inr \<lparr>answer = result, sources = map format_source source_documents\<rparr>, w2)))"

text \<open>
  The loop of \<open>get_project_stats\<close> over the documents, with the set \<open>file_ids\<close> (kept as a
  list without repetitions: Python fixes no order for the resulting list) and the counter
  \<open>total_chunks\<close>; the primed names are the local variables, the plain ones the keys of
  the result.
\<close>

record project_stats =
  total_documents :: int
  total_chunks :: int
  file_ids :: "int list"

fun stats_loop :: "document list \<Rightarrow> int list \<Rightarrow> int \<Rightarrow> int list \<times> int" where
  "stats_loop [] file_ids' total_chunks' = (file_ids', total_chunks')"
| "stats_loop (doc # docs) file_ids' total_chunks' =
     stats_loop docs
       (case map_of (metadata doc) ''file_id'' of
          Some f \<Rightarrow> List.insert f file_ids'
        | None \<Rightarrow> file_ids')
       (total_chunks' + 1)"

definition get_project_stats :: "int \<Rightarrow> 'v world \<Rightarrow> py_error + project_stats" where
  "get_project_stats project_id w =
     (case load_vectorstore project_id w of
        Inl e \<Rightarrow> Inl e
      | Inr None \<Rightarrow> Inr \<lparr>total_documents = 0, total_chunks = 0, file_ids = []\<rparr>
      | Inr (Some vectorstore) \<Rightarrow>
          (case stats_loop (docstore_values vectorstore) [] 0 of
             (file_ids', total_chunks') \<Rightarrow>
               Inr \<lparr>total_documents = int (length file_ids'),
                    total_chunks = total_chunks',
                    file_ids = file_ids'\<rparr>))"

subsection \<open>Notions of the specification about an index\<close>

text \<open>
  An index whose every entry carries the vector the embedding service gives for the
  entry's text, as every fragment made by \<open>create_embeddings\<close> does.
\<close>

definition embedded_by :: "(string \<Rightarrow> 'v) \<Rightarrow> 'v vectorstore \<Rightarrow> bool" where
  "embedded_by emb vs = list_all (\<lambda>(v, d). v = emb (page_content d)) vs"

text \<open>The file ids found in the metadata of the entries of an index, entry by entry.\<close>

definition entry_file_ids :: "'v vectorstore \<Rightarrow> int list" where
  "entry_file_ids vs = List.map_filter (\<lambda>d. map_of (metadata d) ''file_id'') (docstore_values vs)"

section \<open>Properties of the chunker\<close>

subsection \<open>Ranges and slices\<close>

lemma range_up_closed:
  "0 < step \<Longrightarrow>
   range_up i stop step = map (\<lambda>k. i + int k * step) [0..<nat ((stop - i + step - 1) div step)]"
proof (induction i stop step rule: range_up.induct)
  case (1 i stop step)
  show ?case
  proof (cases "i < stop")
    case True
    have pos: "0 \<le> (stop - i - 1) div step"
      using True 1(2) by (simp add: pos_imp_zdiv_nonneg_iff)
    have "(stop - i + step - 1) div step = (stop - i - 1) div step + 1"
    proof -
      have e: "stop - i + step - 1 = (stop - i - 1) + step" by simp
      show ?thesis unfolding e using 1(2) by (intro div_add_self2) simp
    qed
    then have m: "nat ((stop - i + step - 1) div step) =
                  Suc (nat ((stop - (i + step) + step - 1) div step))"
      using pos by (simp add: nat_add_distrib algebra_simps)
    have ih: "range_up (i + step) stop step =
      map (\<lambda>k. i + step + int k * step) [0..<nat ((stop - (i + step) + step - 1) div step)]"
      using 1(1) True 1(2) by simp
    have "range_up i stop step = i # range_up (i + step) stop step"
      using True 1(2) by (simp add: range_up.simps[of i])
    also have "\<dots> = map (\<lambda>k. i + int k * step)
                        [0..<Suc (nat ((stop - (i + step) + step - 1) div step))]"
      unfolding ih
      by (simp only: upt_conv_Cons[OF zero_less_Suc] list.map map_Suc_upt[symmetric] map_map o_def)
         (simp add: algebra_simps)
    finally show ?thesis using m by simp
  next
    case False
    then have "stop - i + step - 1 < step" by simp
    then have "(stop - i + step - 1) div step \<le> 0"
      using 1(2)
      by (cases "0 \<le> stop - i + step - 1")
         (simp_all add: div_pos_pos_trivial div_neg_pos_less0 less_imp_le)
    then show ?thesis using False by (simp add: range_up.simps[of i])
  qed
qed

lemma int_le_div_iff:
  fixes a b c :: int
  assumes "0 < c"
  shows "(a \<le> b div c) = (a * c \<le> b)"
proof
  assume "a \<le> b div c"
  then have "a * c \<le> (b div c) * c"
    using assms by (simp add: mult_right_mono)
  also have "\<dots> \<le> b"
  proof -
    have "0 \<le> b mod c" using assms by simp
    moreover have "(b div c) * c + b mod c = b" by simp
    ultimately show ?thesis by linarith
  qed
  finally show "a * c \<le> b" .
next
  assume "a * c \<le> b"
  then have "(a * c) div c \<le> b div c"
    using assms by (rule zdiv_mono1)
  then show "a \<le> b div c"
    using assms by simp
qed

lemma n_windows_iff:
  assumes "0 < step"
  shows "(k < n_windows n step) = (int k * step < int n)"
proof -
  have "(k < nat ((int n + step - 1) div step)) = (int k + 1 \<le> (int n + step - 1) div step)"
    by (simp add: zless_nat_eq_int_zless) linarith
  also have "\<dots> = ((int k + 1) * step \<le> int n + step - 1)"
    by (rule int_le_div_iff[OF assms])
  also have "\<dots> = (int k * step < int n)"
    by (simp add: algebra_simps) linarith
  finally show ?thesis by (simp add: n_windows_def)
qed

lemma py_range_up:
  "0 < step \<Longrightarrow>
   py_range 0 (int n) step = Inr (map (\<lambda>k. int k * step) [0..<n_windows n step])"
  by (simp add: py_range_def range_up_closed n_windows_def)

lemma py_range_down:
  "step < 0 \<Longrightarrow> py_range 0 (int n) step = Inr []"
  by (simp add: py_range_def range_down.simps[of 0])

lemma py_slice_window:
  assumes "0 \<le> i" "1 \<le> c"
  shows "py_slice xs i (i + c) = take (nat c) (drop (nat i) xs)"
proof (cases "i < int (length xs)")
  case True
  have "take (nat (min (i + c) (int (length xs)) - i)) (drop (nat i) xs) =
        take (nat c) (drop (nat i) xs)"
  proof (cases "i + c \<le> int (length xs)")
    case True
    then show ?thesis by (simp add: min_def)
  next
    case False
    then have "length (drop (nat i) xs) \<le> nat (min (i + c) (int (length xs)) - i)"
      and "length (drop (nat i) xs) \<le> nat c"
      using assms by (simp_all add: min_def)
    then show ?thesis by simp
  qed
  then show ?thesis
    using True assms by (simp add: py_slice_def slice_bound_def Let_def min_def)
next
  case False
  then show ?thesis
    using assms by (simp add: py_slice_def slice_bound_def Let_def min_def)
qed

subsection \<open>The loop in closed form\<close>

lemma chunk_loop_closed:
  "chunk_size \<noteq> 0 \<Longrightarrow>
   chunk_loop chunk_size words chunks is =
   Inr (chunks @ map (\<lambda>j. \<lparr>text_field = join_space (py_slice words (is ! j) (is ! j + chunk_size)),
                              chunk_index = int (length chunks + j),
                              estimated_page = (is ! j) div chunk_size + 1,
                              word_count = int (length (py_slice words (is ! j) (is ! j + chunk_size)))\<rparr>)
                     [0..<length is])"
proof (induction "is" arbitrary: chunks)
  case Nil
  show ?case by simp
next
  case (Cons i "is")
  show ?case
    using Cons.prems
    by (simp add: Cons.IH Let_def upt_conv_Cons map_Suc_upt[symmetric] del: upt_Suc)
qed

lemma chunk_loop_windows:
  assumes "chunk_overlap < chunk_size" "1 \<le> chunk_size"
  shows "chunk_loop chunk_size ws [] (map (\<lambda>k. int k * (chunk_size - chunk_overlap)) [0..<m])
     = Inr (map (window_chunk chunk_size chunk_overlap ws) [0..<m])"
proof -
  have cs: "chunk_size \<noteq> 0" using assms by simp
  show ?thesis
    unfolding chunk_loop_closed[OF cs]
    using assms
    by (simp add: window_chunk_def Let_def py_slice_window floor_divide_of_int_eq)
qed

lemma chunk_text_closed:
  assumes "chunk_overlap < chunk_size" "1 \<le> chunk_size"
  shows "chunk_text chunk_size chunk_overlap t =
         Inr (map (window_chunk chunk_size chunk_overlap (py_split t))
                  [0..<n_windows (length (py_split t)) (chunk_size - chunk_overlap)])"
proof -
  have "0 < chunk_size - chunk_overlap" using assms by simp
  then show ?thesis
    by (simp add: chunk_text_def Let_def py_range_up chunk_loop_windows[OF assms])
qed

subsection \<open>Splitting a joined word list gives the words back\<close>

lemma split_words_ok:
  "list_all (\<lambda>c. \<not> isspace c) w \<Longrightarrow> list_all word_ok (split_words w s)"
proof (induction s arbitrary: w)
  case Nil
  then show ?case by (simp add: word_ok_def)
next
  case (Cons c s)
  show ?case
  proof (cases "isspace c")
    case True
    have "list_all word_ok (split_words [] s)" by (rule Cons.IH) simp
    then show ?thesis using True Cons.prems by (simp add: word_ok_def[of w])
  next
    case False
    have "list_all word_ok (split_words (w @ [c]) s)"
      by (rule Cons.IH) (use False Cons.prems in simp)
    then show ?thesis using False by simp
  qed
qed

lemma py_split_ok: "list_all word_ok (py_split s)"
  unfolding py_split_def by (rule split_words_ok) simp

lemma split_words_nospace:
  "list_all (\<lambda>c. \<not> isspace c) u \<Longrightarrow> split_words w (u @ r) = split_words (w @ u) r"
  by (induction u arbitrary: w) simp_all

lemma isspace_blank: "isspace CHR '' ''"
  by (simp add: isspace_def)

lemma split_join:
  "list_all word_ok ws \<Longrightarrow> split_words [] (join_space ws) = ws"
proof (induction ws rule: join_space.induct)
  case 1
  show ?case by simp
next
  case (2 w)
  then have "split_words [] (w @ []) = split_words ([] @ w) []"
    by (intro split_words_nospace) (simp add: word_ok_def)
  then show ?case using 2 by (simp add: word_ok_def)
next
  case (3 w v ws)
  have w: "w \<noteq> []" "list_all (\<lambda>c. \<not> isspace c) w"
    using 3(2) by (simp_all add: word_ok_def)
  have "split_words [] (w @ (CHR '' '' # join_space (v # ws))) =
        split_words ([] @ w) (CHR '' '' # join_space (v # ws))"
    by (rule split_words_nospace[OF w(2)])
  also have "\<dots> = w # split_words [] (join_space (v # ws))"
    using w(1) isspace_blank by simp
  also have "\<dots> = w # v # ws"
    using 3 by simp
  finally show ?case by simp
qed

lemma py_split_join: "list_all word_ok ws \<Longrightarrow> py_split (join_space ws) = ws"
  by (simp add: py_split_def split_join)

lemma window_words:
  "py_split (text_field (window_chunk cs ov (py_split t) k)) =
   take (nat cs) (drop (nat (int k * (cs - ov))) (py_split t))"
proof -
  have "list_all word_ok (take (nat cs) (drop (nat (int k * (cs - ov))) (py_split t)))"
    using py_split_ok[of t] unfolding list_all_iff by (meson in_set_takeD in_set_dropD)
  then show ?thesis
    by (simp add: window_chunk_def Let_def py_split_join)
qed

subsection \<open>An overlap that is not below the chunk size\<close>

text \<open>
  Claim C1, as the code has it. When \<open>chunk_overlap\<close> equals \<open>chunk_size\<close> the step of the
  range is zero and chunking fails for every text, with the \<open>ValueError\<close> that \<open>range\<close>
  raises (the code has no configuration error of its own). When \<open>chunk_overlap\<close> is above
  \<open>chunk_size\<close> the step is negative, the range is empty, and chunking returns the empty
  chunk list without any error, whatever the text. In both cases the call ends.
\<close>

theorem chunk_text_overlap_not_below_size:
  assumes "chunk_size \<le> chunk_overlap"
  shows "chunk_text chunk_size chunk_overlap t =
         (if chunk_overlap = chunk_size then Inl ValueError else Inr [])"
proof (cases "chunk_overlap = chunk_size")
  case True
  then show ?thesis by (simp add: chunk_text_def py_range_def)
next
  case False
  then have "chunk_size - chunk_overlap < 0" using assms by simp
  then show ?thesis using False by (simp add: chunk_text_def Let_def py_range_down)
qed

theorem chunk_text_overlap_not_below_size_witness:
  "(3::int) \<le> 3 \<and> chunk_text 3 3 ''a b c d'' = Inl ValueError \<and>
   (2::int) \<le> 3 \<and> chunk_text 2 3 ''a b c d'' = Inr []"
  using chunk_text_overlap_not_below_size[of 3 3 "''a b c d''"]
        chunk_text_overlap_not_below_size[of 2 3 "''a b c d''"]
  by simp

text \<open>
  The claim as stated asks for an error whenever the overlap is not below the chunk
  size. With chunk size 2 and overlap 3 the text \<open>a b c\<close> gives the empty chunk list and
  no error.
\<close>

theorem chunk_text_overlap_above_size_no_error:
  "chunk_text 2 3 ''a b c'' = Inr []"
  by code_simp

subsection \<open>The sliding windows\<close>

text \<open>
  Claim C4, for a chunk size of at least one word. For every text and every configuration
  with \<open>chunk_overlap < chunk_size\<close> and \<open>1 \<le> chunk_size\<close>, chunking returns, for the
  whitespace-delimited words of the text, one chunk per sliding window of \<open>chunk_size\<close>
  words advanced by \<open>chunk_size - chunk_overlap\<close>: there is a window for exactly the start
  offsets \<open>k * (chunk_size - chunk_overlap)\<close> below the number of words, the \<open>k\<close>-th chunk
  has \<open>chunk_index = k\<close> and \<open>estimated_page = floor (start_offset / chunk_size) + 1\<close>, and
  the empty text gives no chunk and no error.
\<close>

theorem chunk_text_sliding_windows:
  assumes "chunk_overlap < chunk_size" "1 \<le> chunk_size"
  shows "chunk_text chunk_size chunk_overlap t =
           Inr (map (window_chunk chunk_size chunk_overlap (py_split t))
                    [0..<n_windows (length (py_split t)) (chunk_size - chunk_overlap)])
         \<and> (\<forall>k. (k < n_windows (length (py_split t)) (chunk_size - chunk_overlap)) =
                  (int k * (chunk_size - chunk_overlap) < int (length (py_split t))))
         \<and> chunk_text chunk_size chunk_overlap [] = Inr []"
proof -
  have step: "0 < chunk_size - chunk_overlap" using assms by simp
  have "\<not> 0 < n_windows 0 (chunk_size - chunk_overlap)"
    using n_windows_iff[OF step, of 0 0] by simp
  then have "chunk_text chunk_size chunk_overlap [] = Inr []"
    using chunk_text_closed[OF assms, of "[]"] by (simp add: py_split_def)
  then show ?thesis
    using chunk_text_closed[OF assms, of t] n_windows_iff[OF step] by simp
qed

theorem chunk_text_sliding_windows_witness:
  "(1::int) < 3 \<and> (1::int) \<le> 3 \<and>
   chunk_text 3 1 ''a b c d e f g'' =
     Inr (map (window_chunk 3 1 (py_split ''a b c d e f g''))
              [0..<n_windows (length (py_split ''a b c d e f g'')) (3 - 1)])
   \<and> chunk_text 3 1 [] = Inr []"
  using chunk_text_sliding_windows[of 1 3 "''a b c d e f g''"]
  by simp

text \<open>
  The claim as stated covers every configuration with \<open>chunk_overlap < chunk_size\<close>. With
  chunk size 0 and overlap \<open>-1\<close> the step is 1, and for the one-word text \<open>a\<close> the page
  estimate divides by the chunk size: the call raises \<open>ZeroDivisionError\<close>.
\<close>

theorem chunk_text_zero_chunk_size_raises:
  "chunk_text 0 (- 1) ''a'' = Inl ZeroDivisionError"
  by code_simp

subsection \<open>The fields of one window\<close>

lemma window_chunk_index: "chunk_index (window_chunk cs ov ws k) = int k"
  by (simp add: window_chunk_def Let_def)

lemma window_word_count:
  "word_count (window_chunk cs ov (py_split t) k) =
   int (length (py_split (text_field (window_chunk cs ov (py_split t) k))))"
  unfolding window_words by (simp add: window_chunk_def Let_def)

lemma window_length:
  assumes "0 \<le> cs" "0 \<le> step"
  shows "int (length (take (nat cs) (drop (nat (int k * step)) ws))) =
         max 0 (min cs (int (length ws) - int k * step))"
proof -
  have "0 \<le> int k * step" using assms by simp
  then obtain b where b: "int k * step = int b"
    using zero_le_imp_eq_int by blast
  obtain c where c: "cs = int c"
    using assms(1) zero_le_imp_eq_int by blast
  have "int (min c (length ws - b)) = max 0 (min (int c) (int (length ws) - int b))"
    by arith
  then show ?thesis by (simp add: b c)
qed

lemma window_word_count_eq:
  assumes "0 \<le> ov" "ov < cs" "k < n_windows (length (py_split t)) (cs - ov)"
  shows "word_count (window_chunk cs ov (py_split t) k) =
         min cs (int (length (py_split t)) - int k * (cs - ov))"
    and "1 \<le> word_count (window_chunk cs ov (py_split t) k)"
proof -
  have step: "0 < cs - ov" using assms by simp
  have inside: "int k * (cs - ov) < int (length (py_split t))"
    using assms(3) n_windows_iff[OF step] by simp
  have "word_count (window_chunk cs ov (py_split t) k) =
        max 0 (min cs (int (length (py_split t)) - int k * (cs - ov)))"
    unfolding window_word_count window_words
    using assms by (intro window_length) simp_all
  then show "word_count (window_chunk cs ov (py_split t) k) =
             min cs (int (length (py_split t)) - int k * (cs - ov))"
    using inside assms by simp
  then show "1 \<le> word_count (window_chunk cs ov (py_split t) k)"
    using inside assms by simp
qed

lemma window_shared_words:
  assumes "0 \<le> ov" "ov < cs"
  shows "drop (nat (cs - ov)) (py_split (text_field (window_chunk cs ov (py_split t) k))) =
         take (nat ov) (py_split (text_field (window_chunk cs ov (py_split t) (Suc k))))"
proof -
  have "int (Suc k) * (cs - ov) = (cs - ov) + int k * (cs - ov)"
    by (simp add: algebra_simps)
  moreover have "0 \<le> cs - ov" "0 \<le> int k * (cs - ov)"
    using assms by simp_all
  ultimately have a: "nat (int (Suc k) * (cs - ov)) = nat (cs - ov) + nat (int k * (cs - ov))"
    by (simp only: nat_add_distrib)
  have b: "nat cs - nat (cs - ov) = nat ov" "min (nat ov) (nat cs) = nat ov"
    using assms by simp_all
  show ?thesis
    unfolding window_words a
    by (simp add: drop_take b)
qed

lemma window_overlap:
  assumes "0 \<le> ov" "ov < cs" "Suc k < n_windows (length (py_split t)) (cs - ov)"
  shows "overlap_between (cs - ov) (window_chunk cs ov (py_split t) k)
                                   (window_chunk cs ov (py_split t) (Suc k)) =
         max 0 (word_count (window_chunk cs ov (py_split t) k) - (cs - ov))"
proof -
  have k: "k < n_windows (length (py_split t)) (cs - ov)" using assms(3) by simp
  have step: "0 < cs - ov" using assms by simp
  have inside: "int (Suc k) * (cs - ov) < int (length (py_split t))"
    using assms(3) n_windows_iff[OF step] by simp
  define n where "n = int (length (py_split t))"
  define s where "s = cs - ov"
  define a where "a = int k * s"
  have w1: "word_count (window_chunk cs ov (py_split t) k) = min cs (n - a)"
    using window_word_count_eq(1)[OF assms(1,2) k] by (simp add: n_def a_def s_def)
  have w2: "word_count (window_chunk cs ov (py_split t) (Suc k)) = min cs (n - (a + s))"
    using window_word_count_eq(1)[OF assms(1,2,3)] by (simp add: n_def a_def s_def algebra_simps)
  have i: "a + s < n" using inside by (simp add: n_def a_def s_def algebra_simps)
  have s: "0 < s" "s \<le> cs" using assms by (simp_all add: s_def)
  have "overlap_between s (window_chunk cs ov (py_split t) k)
                          (window_chunk cs ov (py_split t) (Suc k)) =
        max 0 (min (a + min cs (n - a)) (a + s + min cs (n - (a + s))) - max a (a + s))"
    by (simp add: overlap_between_def start_offset_def end_offset_def window_chunk_index w1 w2
        a_def algebra_simps)
  also have "\<dots> = max 0 (min cs (n - a) - s)"
    using i s by (simp add: min_def max_def)
  finally show ?thesis by (simp add: w1 s_def)
qed

subsection \<open>Indices, sizes and overlaps of the chunks\<close>

text \<open>
  Claim C5, as the code has it. For every text and every configuration with
  \<open>0 \<le> chunk_overlap < chunk_size\<close>, chunking returns a chunk list in which the \<open>k\<close>-th
  chunk has \<open>chunk_index = k\<close>, so the indices are strictly increasing; every chunk's
  \<open>word_count\<close> is the number of words of its text and is at most \<open>chunk_size\<close>; and for
  consecutive chunks the words of the earlier chunk after its first
  \<open>chunk_size - chunk_overlap\<close> words are exactly the leading words (at most
  \<open>chunk_overlap\<close> of them) of the later chunk. The number of word positions two
  consecutive chunks share is the earlier chunk's word count less the step, never more
  than \<open>chunk_overlap\<close>, and equal to \<open>chunk_overlap\<close> whenever the earlier chunk is full.
  Every chunk that reaches the end of the text can be short, not only the final one; when
  \<open>2 * chunk_overlap \<le> chunk_size\<close>, every pair of consecutive chunks that does not
  involve the final chunk overlaps in exactly \<open>chunk_overlap\<close> words.
\<close>

theorem chunk_text_indices_sizes_overlaps:
  assumes "0 \<le> chunk_overlap" "chunk_overlap < chunk_size"
  shows "\<exists>chunks. chunk_text chunk_size chunk_overlap t = Inr chunks \<and>
    (\<forall>k<length chunks. chunk_index (chunks ! k) = int k) \<and>
    (\<forall>j k. j < k \<and> k < length chunks \<longrightarrow>
       chunk_index (chunks ! j) < chunk_index (chunks ! k)) \<and>
    (\<forall>k<length chunks.
       word_count (chunks ! k) = int (length (py_split (text_field (chunks ! k)))) \<and>
       word_count (chunks ! k) \<le> chunk_size) \<and>
    (\<forall>k. Suc k < length chunks \<longrightarrow>
       drop (nat (chunk_size - chunk_overlap)) (py_split (text_field (chunks ! k))) =
         take (nat chunk_overlap) (py_split (text_field (chunks ! Suc k))) \<and>
       overlap_between (chunk_size - chunk_overlap) (chunks ! k) (chunks ! Suc k) =
         max 0 (word_count (chunks ! k) - (chunk_size - chunk_overlap)) \<and>
       overlap_between (chunk_size - chunk_overlap) (chunks ! k) (chunks ! Suc k)
         \<le> chunk_overlap \<and>
       (word_count (chunks ! k) = chunk_size \<longrightarrow>
          overlap_between (chunk_size - chunk_overlap) (chunks ! k) (chunks ! Suc k)
            = chunk_overlap)) \<and>
    (2 * chunk_overlap \<le> chunk_size \<longrightarrow>
       (\<forall>k. Suc (Suc k) < length chunks \<longrightarrow>
          overlap_between (chunk_size - chunk_overlap) (chunks ! k) (chunks ! Suc k)
            = chunk_overlap))"
proof -
  define ws where "ws = py_split t"
  define s where "s = chunk_size - chunk_overlap"
  define m where "m = n_windows (length ws) s"
  define chunks where "chunks = map (window_chunk chunk_size chunk_overlap ws) [0..<m]"
  have size: "1 \<le> chunk_size" using assms by simp
  have step: "0 < s" using assms by (simp add: s_def)
  have run: "chunk_text chunk_size chunk_overlap t = Inr chunks"
    using chunk_text_closed[OF assms(2) size, of t]
    by (simp add: chunks_def m_def ws_def s_def)
  have len: "length chunks = m" by (simp add: chunks_def)
  have nth: "chunks ! k = window_chunk chunk_size chunk_overlap (py_split t) k" if "k < m" for k
    using that by (simp add: chunks_def ws_def)
  have inm: "k < n_windows (length (py_split t)) (chunk_size - chunk_overlap)" if "k < m" for k
    using that by (simp add: m_def ws_def s_def)
  have idx: "chunk_index (chunks ! k) = int k" if "k < m" for k
    using that by (simp add: nth window_chunk_index)
  have wc: "word_count (chunks ! k) = min chunk_size (int (length ws) - int k * s)" if "k < m" for k
    using window_word_count_eq(1)[OF assms inm[OF that]] that by (simp add: nth ws_def s_def)
  have p1: "\<forall>k<length chunks. chunk_index (chunks ! k) = int k"
    using idx len by simp
  have p2: "\<forall>j k. j < k \<and> k < length chunks \<longrightarrow>
              chunk_index (chunks ! j) < chunk_index (chunks ! k)"
    using idx len by simp
  have p3: "\<forall>k<length chunks.
       word_count (chunks ! k) = int (length (py_split (text_field (chunks ! k)))) \<and>
       word_count (chunks ! k) \<le> chunk_size"
  proof (intro allI impI conjI)
    fix k assume k: "k < length chunks"
    then have km: "k < m" using len by simp
    show "word_count (chunks ! k) = int (length (py_split (text_field (chunks ! k))))"
      unfolding nth[OF km] by (rule window_word_count)
    show "word_count (chunks ! k) \<le> chunk_size"
      using wc[OF km] by simp
  qed
  have ov: "overlap_between s (chunks ! k) (chunks ! Suc k) = max 0 (word_count (chunks ! k) - s)"
    if "Suc k < m" for k
  proof -
    have km: "k < m" using that by simp
    show ?thesis
      using window_overlap[OF assms inm[OF that]]
      by (simp add: nth[OF km] nth[OF that] s_def)
  qed
  have p4: "\<forall>k. Suc k < length chunks \<longrightarrow>
       drop (nat (chunk_size - chunk_overlap)) (py_split (text_field (chunks ! k))) =
         take (nat chunk_overlap) (py_split (text_field (chunks ! Suc k))) \<and>
       overlap_between (chunk_size - chunk_overlap) (chunks ! k) (chunks ! Suc k) =
         max 0 (word_count (chunks ! k) - (chunk_size - chunk_overlap)) \<and>
       overlap_between (chunk_size - chunk_overlap) (chunks ! k) (chunks ! Suc k)
         \<le> chunk_overlap \<and>
       (word_count (chunks ! k) = chunk_size \<longrightarrow>
          overlap_between (chunk_size - chunk_overlap) (chunks ! k) (chunks ! Suc k)
            = chunk_overlap)"
  proof (intro allI impI conjI)
    fix k assume "Suc k < length chunks"
    then have sk: "Suc k < m" and km: "k < m" using len by simp_all
    show "drop (nat (chunk_size - chunk_overlap)) (py_split (text_field (chunks ! k))) =
          take (nat chunk_overlap) (py_split (text_field (chunks ! Suc k)))"
      unfolding nth[OF km] nth[OF sk] by (rule window_shared_words[OF assms])
    show o: "overlap_between (chunk_size - chunk_overlap) (chunks ! k) (chunks ! Suc k) =
          max 0 (word_count (chunks ! k) - (chunk_size - chunk_overlap))"
      using ov[OF sk] by (simp add: s_def)
    show "overlap_between (chunk_size - chunk_overlap) (chunks ! k) (chunks ! Suc k)
            \<le> chunk_overlap"
      unfolding o using wc[OF km] assms by (simp add: s_def)
    show "overlap_between (chunk_size - chunk_overlap) (chunks ! k) (chunks ! Suc k)
            = chunk_overlap"
      if "word_count (chunks ! k) = chunk_size"
      unfolding o using that assms by simp
  qed
  have p5: "2 * chunk_overlap \<le> chunk_size \<longrightarrow>
       (\<forall>k. Suc (Suc k) < length chunks \<longrightarrow>
          overlap_between (chunk_size - chunk_overlap) (chunks ! k) (chunks ! Suc k)
            = chunk_overlap)"
  proof (intro allI impI)
    fix k assume half: "2 * chunk_overlap \<le> chunk_size" and "Suc (Suc k) < length chunks"
    then have ssk: "Suc (Suc k) < m" and sk: "Suc k < m" and km: "k < m" using len by simp_all
    have "int (Suc (Suc k)) * s < int (length ws)"
      using ssk n_windows_iff[OF step] by (simp add: m_def)
    then have "int k * s + 2 * s < int (length ws)" by (simp add: algebra_simps)
    moreover have "chunk_size \<le> 2 * s" using half by (simp add: s_def)
    ultimately have "word_count (chunks ! k) = chunk_size"
      using wc[OF km] by simp
    then show "overlap_between (chunk_size - chunk_overlap) (chunks ! k) (chunks ! Suc k)
                 = chunk_overlap"
      using ov[OF sk] assms by (simp add: s_def)
  qed
  show ?thesis
    using run p1 p2 p3 p4 p5 by blast
qed

theorem chunk_text_indices_sizes_overlaps_witness:
  "(0::int) \<le> 1 \<and> (1::int) < 3 \<and>
   (\<exists>chunks. chunk_text 3 1 ''a b c d e f g'' = Inr chunks \<and>
      length chunks = 4 \<and>
      chunk_index (chunks ! 2) = 2 \<and>
      word_count (chunks ! 2) = 3 \<and>
      overlap_between (3 - 1) (chunks ! 1) (chunks ! 2) = 1)"
proof -
  have h: "(0::int) \<le> 1" "(1::int) < 3" by simp_all
  obtain chunks where c: "chunk_text 3 1 ''a b c d e f g'' = Inr chunks"
    and i: "\<forall>k<length chunks. chunk_index (chunks ! k) = int k"
    using chunk_text_indices_sizes_overlaps[OF h, of "''a b c d e f g''"] by blast
  have e: "chunk_text 3 1 ''a b c d e f g'' =
        Inr [\<lparr>text_field = ''a b c'', chunk_index = 0, estimated_page = 1, word_count = 3\<rparr>,
             \<lparr>text_field = ''c d e'', chunk_index = 1, estimated_page = 1, word_count = 3\<rparr>,
             \<lparr>text_field = ''e f g'', chunk_index = 2, estimated_page = 2, word_count = 3\<rparr>,
             \<lparr>text_field = ''g'', chunk_index = 3, estimated_page = 3, word_count = 1\<rparr>]"
    by code_simp
  have ceq: "chunks =
        [\<lparr>text_field = ''a b c'', chunk_index = 0, estimated_page = 1, word_count = 3\<rparr>,
         \<lparr>text_field = ''c d e'', chunk_index = 1, estimated_page = 1, word_count = 3\<rparr>,
         \<lparr>text_field = ''e f g'', chunk_index = 2, estimated_page = 2, word_count = 3\<rparr>,
         \<lparr>text_field = ''g'', chunk_index = 3, estimated_page = 3, word_count = 1\<rparr>]"
    using c e by simp
  have l: "length chunks = 4" unfolding ceq by simp
  then have "chunk_index (chunks ! 2) = 2" using i by simp
  moreover have "word_count (chunks ! 2) = 3"
    and "overlap_between (3 - 1) (chunks ! 1) (chunks ! 2) = 1"
    unfolding ceq by (simp_all add: overlap_between_def start_offset_def end_offset_def)
  ultimately show ?thesis using h c l by blast
qed

text \<open>
  The claim as stated lets only the final chunk fall short of the configured overlap.
  With chunk size 4 and overlap 3 the text \<open>a b c d\<close> gives four chunks; the second and
  the third are consecutive, neither is the final chunk, and they share two word
  positions, not three.
\<close>

theorem chunk_text_overlap_short_before_final:
  "chunk_text 4 3 ''a b c d'' =
     Inr [\<lparr>text_field = ''a b c d'', chunk_index = 0, estimated_page = 1, word_count = 4\<rparr>,
          \<lparr>text_field = ''b c d'', chunk_index = 1, estimated_page = 1, word_count = 3\<rparr>,
          \<lparr>text_field = ''c d'', chunk_index = 2, estimated_page = 1, word_count = 2\<rparr>,
          \<lparr>text_field = ''d'', chunk_index = 3, estimated_page = 1, word_count = 1\<rparr>]
   \<and> overlap_between (4 - 3)
         \<lparr>text_field = ''b c d'', chunk_index = 1, estimated_page = 1, word_count = 3\<rparr>
         \<lparr>text_field = ''c d'', chunk_index = 2, estimated_page = 1, word_count = 2\<rparr> = 2"
  by code_simp

subsection \<open>Every word lies in a chunk\<close>

text \<open>
  Claim C10. For every text (the empty one too) and every configuration with
  \<open>0 \<le> chunk_overlap < chunk_size\<close>, chunking returns a chunk list that covers the input:
  for every position \<open>p\<close> of the whitespace-delimited words of the text there are a chunk
  \<open>k\<close> and a position \<open>j\<close> among the words of that chunk's text with
  \<open>p = k * (chunk_size - chunk_overlap) + j\<close>, and the chunk's word there is the text's word
  at \<open>p\<close>; and every chunk holds at least one word (\<open>word_count \<ge> 1\<close>, the number of words
  of its text).
\<close>

theorem chunk_text_covers_every_word:
  assumes "0 \<le> chunk_overlap" "chunk_overlap < chunk_size"
  shows "\<exists>chunks. chunk_text chunk_size chunk_overlap t = Inr chunks \<and>
    (\<forall>p<length (py_split t). \<exists>k<length chunks.
       \<exists>j<length (py_split (text_field (chunks ! k))).
         int p = int k * (chunk_size - chunk_overlap) + int j \<and>
         py_split (text_field (chunks ! k)) ! j = py_split t ! p) \<and>
    (\<forall>k<length chunks.
       1 \<le> word_count (chunks ! k) \<and>
       word_count (chunks ! k) = int (length (py_split (text_field (chunks ! k)))))"
proof -
  define ws where "ws = py_split t"
  define s where "s = nat (chunk_size - chunk_overlap)"
  define m where "m = n_windows (length ws) (chunk_size - chunk_overlap)"
  define chunks where "chunks = map (window_chunk chunk_size chunk_overlap ws) [0..<m]"
  have size: "1 \<le> chunk_size" using assms by simp
  have step: "0 < chunk_size - chunk_overlap" using assms by simp
  have s: "0 < s" "int s = chunk_size - chunk_overlap" "s \<le> nat chunk_size"
    using assms by (simp_all add: s_def)
  have run: "chunk_text chunk_size chunk_overlap t = Inr chunks"
    using chunk_text_closed[OF assms(2) size, of t]
    by (simp add: chunks_def m_def ws_def)
  have len: "length chunks = m" by (simp add: chunks_def)
  have nth: "chunks ! k = window_chunk chunk_size chunk_overlap (py_split t) k" if "k < m" for k
    using that by (simp add: chunks_def ws_def)
  have words: "py_split (text_field (chunks ! k)) = take (nat chunk_size) (drop (k * s) ws)"
    if "k < m" for k
  proof -
    have "nat (int k * (chunk_size - chunk_overlap)) = k * s"
      using s(2) by (metis nat_int of_nat_mult)
    then show ?thesis
      unfolding nth[OF that] window_words by (simp add: ws_def)
  qed
  have cover: "\<forall>p<length (py_split t). \<exists>k<length chunks.
       \<exists>j<length (py_split (text_field (chunks ! k))).
         int p = int k * (chunk_size - chunk_overlap) + int j \<and>
         py_split (text_field (chunks ! k)) ! j = py_split t ! p"
  proof (intro allI impI)
    fix p assume p: "p < length (py_split t)"
    define k where "k = p div s"
    define j where "j = p mod s"
    have pk: "p = k * s + j" by (simp add: k_def j_def)
    have js: "j < s" using s(1) by (simp add: j_def)
    have "int k * (chunk_size - chunk_overlap) = int (k * s)" using s(2) by simp
    also have "\<dots> < int (length ws)"
    proof -
      have "k * s < length ws" using p pk by (simp add: ws_def)
      then show ?thesis by (simp only: of_nat_less_iff)
    qed
    finally have km: "k < m"
      using n_windows_iff[OF step] by (simp add: m_def)
    have jl: "j < length (take (nat chunk_size) (drop (k * s) ws))"
      using js s(3) p pk by (simp add: ws_def)
    have "k * s \<le> length ws" using p pk by (simp add: ws_def)
    then have "drop (k * s) ws ! j = ws ! (k * s + j)" by (simp add: nth_drop)
    then have "take (nat chunk_size) (drop (k * s) ws) ! j = ws ! p"
      using jl pk by simp
    then have "py_split (text_field (chunks ! k)) ! j = py_split t ! p"
      by (simp add: words[OF km] ws_def)
    moreover have "int p = int k * (chunk_size - chunk_overlap) + int j"
      using pk s(2) by (metis of_nat_add of_nat_mult)
    moreover have "j < length (py_split (text_field (chunks ! k)))"
      using jl by (simp add: words[OF km])
    ultimately show "\<exists>k<length chunks. \<exists>j<length (py_split (text_field (chunks ! k))).
         int p = int k * (chunk_size - chunk_overlap) + int j \<and>
         py_split (text_field (chunks ! k)) ! j = py_split t ! p"
      using km len by blast
  qed
  have nonempty: "\<forall>k<length chunks.
       1 \<le> word_count (chunks ! k) \<and>
       word_count (chunks ! k) = int (length (py_split (text_field (chunks ! k))))"
  proof (intro allI impI conjI)
    fix k assume "k < length chunks"
    then have km: "k < m" using len by simp
    then have inm: "k < n_windows (length (py_split t)) (chunk_size - chunk_overlap)"
      by (simp add: m_def ws_def)
    show "1 \<le> word_count (chunks ! k)"
      unfolding nth[OF km] by (rule window_word_count_eq(2)[OF assms inm])
    show "word_count (chunks ! k) = int (length (py_split (text_field (chunks ! k))))"
      unfolding nth[OF km] by (rule window_word_count)
  qed
  show ?thesis using run cover nonempty by blast
qed

theorem chunk_text_covers_every_word_witness:
  "(0::int) \<le> 1 \<and> (1::int) < 3 \<and>
   (\<exists>chunks. chunk_text 3 1 ''a b c d e f g'' = Inr chunks \<and>
      length chunks = 4 \<and>
      1 \<le> word_count (chunks ! 3) \<and>
      (\<exists>k<length chunks. \<exists>j<length (py_split (text_field (chunks ! k))).
          int 6 = int k * (3 - 1) + int j \<and>
          py_split (text_field (chunks ! k)) ! j = py_split ''a b c d e f g'' ! 6))"
proof -
  have h: "(0::int) \<le> 1" "(1::int) < 3" by simp_all
  obtain chunks where c: "chunk_text 3 1 ''a b c d e f g'' = Inr chunks"
    and cov: "\<forall>p<length (py_split ''a b c d e f g''). \<exists>k<length chunks.
       \<exists>j<length (py_split (text_field (chunks ! k))).
         int p = int k * (3 - 1) + int j \<and>
         py_split (text_field (chunks ! k)) ! j = py_split ''a b c d e f g'' ! p"
    and ne: "\<forall>k<length chunks. 1 \<le> word_count (chunks ! k) \<and>
       word_count (chunks ! k) = int (length (py_split (text_field (chunks ! k))))"
    using chunk_text_covers_every_word[OF h, of "''a b c d e f g''"] by blast
  have e: "chunk_text 3 1 ''a b c d e f g'' =
        Inr [\<lparr>text_field = ''a b c'', chunk_index = 0, estimated_page = 1, word_count = 3\<rparr>,
             \<lparr>text_field = ''c d e'', chunk_index = 1, estimated_page = 1, word_count = 3\<rparr>,
             \<lparr>text_field = ''e f g'', chunk_index = 2, estimated_page = 2, word_count = 3\<rparr>,
             \<lparr>text_field = ''g'', chunk_index = 3, estimated_page = 3, word_count = 1\<rparr>]"
    by code_simp
  have ceq: "chunks =
        [\<lparr>text_field = ''a b c'', chunk_index = 0, estimated_page = 1, word_count = 3\<rparr>,
         \<lparr>text_field = ''c d e'', chunk_index = 1, estimated_page = 1, word_count = 3\<rparr>,
         \<lparr>text_field = ''e f g'', chunk_index = 2, estimated_page = 2, word_count = 3\<rparr>,
         \<lparr>text_field = ''g'', chunk_index = 3, estimated_page = 3, word_count = 1\<rparr>]"
    using c e by simp
  have l: "length chunks = 4" unfolding ceq by simp
  have n: "length (py_split ''a b c d e f g'') = 7" by code_simp
  have "3 < length chunks" using l by simp
  then have "1 \<le> word_count (chunks ! 3)" using ne by blast
  moreover have "\<exists>k<length chunks. \<exists>j<length (py_split (text_field (chunks ! k))).
          int 6 = int k * (3 - 1) + int j \<and>
          py_split (text_field (chunks ! k)) ! j = py_split ''a b c d e f g'' ! 6"
  proof -
    have "(6::nat) < length (py_split ''a b c d e f g'')" using n by simp
    then show ?thesis using cov by blast
  qed
  ultimately show ?thesis using h c l by blast
qed

section \<open>Properties of the retrieval pipeline\<close>

subsection \<open>Merging\<close>

lemma docstore_values_add_documents:
  "docstore_values (add_documents emb vs docs) = docstore_values vs @ docs"
  by (simp add: docstore_values_def add_documents_def o_def)

lemma add_documents_embedded:
  "embedded_by emb new \<Longrightarrow> add_documents emb vs (docstore_values new) = vs @ new"
proof -
  assume "embedded_by emb new"
  then have "map (\<lambda>d. (emb (page_content d), d)) (map snd new) = new"
    by (induction new) (auto simp: embedded_by_def)
  then show ?thesis by (simp add: add_documents_def docstore_values_def)
qed

lemma embedded_by_from_texts: "embedded_by emb (from_texts emb texts metadatas)"
  by (auto simp: embedded_by_def from_texts_def list_all_iff)

lemma embedded_by_create_embeddings:
  "embedded_by emb (fst (create_embeddings emb chunks file_id w))"
  by (simp add: create_embeddings_def Let_def embedded_by_from_texts)

text \<open>
  Claim C2. Without an existing index the merge returns the new fragment itself and
  calls no service. With an existing index \<open>E\<close> the merged index holds the entries of \<open>E\<close>
  first, unchanged and in place with their vectors, followed by one entry per entry of
  the fragment \<open>F\<close>: its documents are those of \<open>E\<close> followed by those of \<open>F\<close>. The only
  texts sent to the embedding service are those of \<open>F\<close>, and no file is written. When the
  vectors of \<open>F\<close> are the service's vectors for its texts (as for every fragment made by
  \<open>create_embeddings\<close>), the merged index is \<open>E\<close> followed by \<open>F\<close>, so its entries are
  exactly the union of both.
\<close>

theorem merge_vectorstores_union:
  "merge_vectorstores emb None F w = (F, w)
   \<and> docstore_values (fst (merge_vectorstores emb (Some E) F w)) =
       docstore_values E @ docstore_values F
   \<and> take (length E) (fst (merge_vectorstores emb (Some E) F w)) = E
   \<and> length (fst (merge_vectorstores emb (Some E) F w)) = length E + length F
   \<and> embed_calls (snd (merge_vectorstores emb (Some E) F w)) =
       embed_calls w @ [map page_content (docstore_values F)]
   \<and> files (snd (merge_vectorstores emb (Some E) F w)) = files w
   \<and> embedded_by emb (fst (create_embeddings emb chunks file_id w))
   \<and> (embedded_by emb F \<longrightarrow>
        fst (merge_vectorstores emb (Some E) F w) = E @ F \<and>
        set (fst (merge_vectorstores emb (Some E) F w)) = set E \<union> set F)"
proof -
  have "embedded_by emb F \<longrightarrow>
        fst (merge_vectorstores emb (Some E) F w) = E @ F \<and>
        set (fst (merge_vectorstores emb (Some E) F w)) = set E \<union> set F"
    by (simp add: merge_vectorstores_def add_documents_embedded)
  moreover have "docstore_values (fst (merge_vectorstores emb (Some E) F w)) =
       docstore_values E @ docstore_values F"
    by (simp add: merge_vectorstores_def docstore_values_add_documents)
  moreover have "take (length E) (fst (merge_vectorstores emb (Some E) F w)) = E"
    and "length (fst (merge_vectorstores emb (Some E) F w)) = length E + length F"
    by (simp_all add: merge_vectorstores_def add_documents_def docstore_values_def)
  ultimately show ?thesis
    by (simp add: merge_vectorstores_def embedded_by_create_embeddings)
qed

theorem merge_vectorstores_union_witness:
  "embedded_by length [(3::nat, \<lparr>page_content = ''g h'', metadata = [(''file_id'', 8)]\<rparr>)]
   \<and> fst (merge_vectorstores length
            (Some [(5, \<lparr>page_content = ''a b c'', metadata = [(''file_id'', 7)]\<rparr>)])
            [(3, \<lparr>page_content = ''g h'', metadata = [(''file_id'', 8)]\<rparr>)]
            \<lparr>files = Map.empty, embed_calls = [], llm_calls = [], qa_chain = None\<rparr>) =
       [(5, \<lparr>page_content = ''a b c'', metadata = [(''file_id'', 7)]\<rparr>),
        (3, \<lparr>page_content = ''g h'', metadata = [(''file_id'', 8)]\<rparr>)]"
proof -
  have h: "embedded_by length [(3::nat, \<lparr>page_content = ''g h'', metadata = [(''file_id'', 8)]\<rparr>)]"
    by (simp add: embedded_by_def)
  show ?thesis
    using h merge_vectorstores_union[of length
        "[(3, \<lparr>page_content = ''g h'', metadata = [(''file_id'', 8)]\<rparr>)]"
        "\<lparr>files = Map.empty, embed_calls = [], llm_calls = [], qa_chain = None\<rparr>"
        "[(5, \<lparr>page_content = ''a b c'', metadata = [(''file_id'', 7)]\<rparr>)]"]
    by simp
qed

text \<open>
  Claim C6. Merging is associative: for all indexes \<open>A\<close>, \<open>B\<close>, \<open>C\<close> (and whatever worlds
  the merges run in), merging \<open>C\<close> into the merge of \<open>A\<close> and \<open>B\<close> gives the same index,
  entry for entry, as merging the merge of \<open>B\<close> and \<open>C\<close> into \<open>A\<close>, hence the same set of
  entries. Merging is commutative up to the order of the entries: both orders give the
  same set of documents, and the same set of entries (vectors included) when the vectors
  of both indexes are the embedding service's vectors for their texts, as for all
  fragments made by \<open>create_embeddings\<close>.
\<close>

theorem merge_vectorstores_assoc_comm:
  "fst (merge_vectorstores emb (Some (fst (merge_vectorstores emb (Some A) B w1))) C w2) =
   fst (merge_vectorstores emb (Some A) (fst (merge_vectorstores emb (Some B) C w3)) w4)
   \<and> set (fst (merge_vectorstores emb (Some (fst (merge_vectorstores emb (Some A) B w1))) C w2)) =
     set (fst (merge_vectorstores emb (Some A) (fst (merge_vectorstores emb (Some B) C w3)) w4))
   \<and> set (docstore_values (fst (merge_vectorstores emb (Some A) B w1))) =
     set (docstore_values (fst (merge_vectorstores emb (Some B) A w2)))
   \<and> (embedded_by emb A \<and> embedded_by emb B \<longrightarrow>
        set (fst (merge_vectorstores emb (Some A) B w1)) =
        set (fst (merge_vectorstores emb (Some B) A w2)))
   \<and> set (fst (merge_vectorstores emb
               (Some (fst (create_embeddings emb chunks_a file_a w1)))
               (fst (create_embeddings emb chunks_b file_b w2)) w3)) =
     set (fst (merge_vectorstores emb
               (Some (fst (create_embeddings emb chunks_b file_b w2)))
               (fst (create_embeddings emb chunks_a file_a w1)) w4))"
proof -
  have assoc:
    "fst (merge_vectorstores emb (Some (fst (merge_vectorstores emb (Some A) B w1))) C w2) =
     fst (merge_vectorstores emb (Some A) (fst (merge_vectorstores emb (Some B) C w3)) w4)"
    by (simp add: merge_vectorstores_def add_documents_def docstore_values_def o_def)
  have docs: "set (docstore_values (fst (merge_vectorstores emb (Some A) B w1))) =
     set (docstore_values (fst (merge_vectorstores emb (Some B) A w2)))"
    by (auto simp: merge_vectorstores_def docstore_values_add_documents)
  have comm: "set (fst (merge_vectorstores emb (Some X) Y w)) =
              set (fst (merge_vectorstores emb (Some Y) X w'))"
    if "embedded_by emb X" "embedded_by emb Y" for X Y :: "'a vectorstore" and w w'
    using that by (auto simp: merge_vectorstores_def add_documents_embedded)
  show ?thesis
    using assoc docs comm[of A B w1 w2]
      comm[OF embedded_by_create_embeddings embedded_by_create_embeddings,
           of chunks_a file_a w1 chunks_b file_b w2 w3 w4]
    by simp
qed

theorem merge_vectorstores_assoc_comm_witness:
  "embedded_by length [(5::nat, \<lparr>page_content = ''a b c'', metadata = [(''file_id'', 7)]\<rparr>)]
   \<and> embedded_by length [(3::nat, \<lparr>page_content = ''g h'', metadata = [(''file_id'', 8)]\<rparr>)]
   \<and> set (fst (merge_vectorstores length
            (Some [(5, \<lparr>page_content = ''a b c'', metadata = [(''file_id'', 7)]\<rparr>)])
            [(3, \<lparr>page_content = ''g h'', metadata = [(''file_id'', 8)]\<rparr>)]
            \<lparr>files = Map.empty, embed_calls = [], llm_calls = [], qa_chain = None\<rparr>)) =
     set (fst (merge_vectorstores length
            (Some [(3, \<lparr>page_content = ''g h'', metadata = [(''file_id'', 8)]\<rparr>)])
            [(5, \<lparr>page_content = ''a b c'', metadata = [(''file_id'', 7)]\<rparr>)]
            \<lparr>files = Map.empty, embed_calls = [], llm_calls = [], qa_chain = None\<rparr>))"
proof -
  have h: "embedded_by length [(5::nat, \<lparr>page_content = ''a b c'', metadata = [(''file_id'', 7)]\<rparr>)]"
          "embedded_by length [(3::nat, \<lparr>page_content = ''g h'', metadata = [(''file_id'', 8)]\<rparr>)]"
    by (simp_all add: embedded_by_def)
  show ?thesis
    using h merge_vectorstores_assoc_comm[of length
        "[(5, \<lparr>page_content = ''a b c'', metadata = [(''file_id'', 7)]\<rparr>)]"
        "[(3, \<lparr>page_content = ''g h'', metadata = [(''file_id'', 8)]\<rparr>)]"
        "\<lparr>files = Map.empty, embed_calls = [], llm_calls = [], qa_chain = None\<rparr>"
        "[]"
        "\<lparr>files = Map.empty, embed_calls = [], llm_calls = [], qa_chain = None\<rparr>"
        "\<lparr>files = Map.empty, embed_calls = [], llm_calls = [], qa_chain = None\<rparr>"
        "\<lparr>files = Map.empty, embed_calls = [], llm_calls = [], qa_chain = None\<rparr>"]
    by blast
qed

subsection \<open>Asking a question\<close>

text \<open>
  Claim C3. For every question and every project whose index file does not exist,
  \<open>query\<close> returns (it does not raise) the fixed answer text with an empty source list,
  and it leaves the world as it was: no batch is sent to the embedding service, no
  question to the generation service, no file is written.
\<close>

theorem query_without_index:
  assumes "files w project_id = None"
  shows "query emb distance llm question project_id w =
           (Inr \<lparr>answer = ''No documents found in this project. Please upload some PDF files first.'',
                 sources = []\<rparr>, w)
         \<and> embed_calls (snd (query emb distance llm question project_id w)) = embed_calls w
         \<and> llm_calls (snd (query emb distance llm question project_id w)) = llm_calls w"
  using assms by (simp add: query_def load_vectorstore_def)

theorem query_without_index_witness:
  "files \<lparr>files = Map.empty, embed_calls = [], llm_calls = [],
          qa_chain = (None :: (nat vectorstore \<times> nat) option)\<rparr> 1 = None
   \<and> query length (\<lambda>a b. if a \<le> b then b - a else a - b) (\<lambda>q docs. ''generated'') ''what?'' 1
        \<lparr>files = Map.empty, embed_calls = [], llm_calls = [], qa_chain = None\<rparr> =
       (Inr \<lparr>answer = ''No documents found in this project. Please upload some PDF files first.'',
             sources = []\<rparr>,
        \<lparr>files = Map.empty, embed_calls = [], llm_calls = [], qa_chain = None\<rparr>)"
proof -
  have h: "files \<lparr>files = Map.empty, embed_calls = [], llm_calls = [],
                  qa_chain = (None :: (nat vectorstore \<times> nat) option)\<rparr> 1 = None"
    by simp
  show ?thesis
    using h query_without_index[OF h, of length "\<lambda>a b. if a \<le> b then b - a else a - b"
        "\<lambda>q docs. ''generated''" "''what?''"]
    by blast
qed

lemma set_similarity_search:
  "set (similarity_search distance vs q k) \<subseteq> set (docstore_values vs)"
proof -
  have "set (take k (map snd (sort_key (\<lambda>e. distance q (fst e)) vs))) \<subseteq>
        set (map snd (sort_key (\<lambda>e. distance q (fst e)) vs))"
    by (rule set_take_subset)
  then show ?thesis by (simp add: similarity_search_def docstore_values_def)
qed

lemma query_with_index:
  assumes "files w project_id = Some (Pickled vs)"
  shows "query emb distance llm question project_id w =
         (Inr \<lparr>answer = llm question (similarity_search distance vs (emb question) 5),
               sources = map format_source (similarity_search distance vs (emb question) 5)\<rparr>,
          w\<lparr>qa_chain := Some (vs, 5),
            embed_calls := embed_calls w @ [[question]],
            llm_calls := llm_calls w @
               [(question, similarity_search distance vs (emb question) 5)]\<rparr>)"
  using assms
  by (simp add: query_def load_vectorstore_def setup_qa_chain_def call_qa_chain_def Let_def)

text \<open>
  Claim C8. For every question asked against a project whose index file holds an index,
  \<open>query\<close> returns at most 5 sources: one per document retrieved with \<open>k = 5\<close>, in the
  order retrieved. Every source is made from a document stored in the index: its
  \<open>content\<close> is the document's text, it carries the document's metadata unchanged (so
  the \<open>file_id\<close> and \<open>chunk_index\<close> read from it are the stored ones), and its \<open>page\<close> is
  the stored \<open>estimated_page\<close> (or \<open>Unknown\<close> when the metadata has none). The sources
  are the same whatever the generation service answers.
\<close>

theorem query_sources_from_index:
  assumes "files w project_id = Some (Pickled vs)"
  shows "\<exists>res w'. query emb distance llm question project_id w = (Inr res, w') \<and>
     length (sources res) \<le> 5 \<and>
     sources res = map format_source (similarity_search distance vs (emb question) 5) \<and>
     (\<forall>s\<in>set (sources res). \<exists>d\<in>set (docstore_values vs).
        content s = page_content d \<and>
        source_metadata s = metadata d \<and>
        map_of (source_metadata s) ''file_id'' = map_of (metadata d) ''file_id'' \<and>
        map_of (source_metadata s) ''chunk_index'' = map_of (metadata d) ''chunk_index'' \<and>
        page s = (case map_of (metadata d) ''estimated_page'' of
                    Some p \<Rightarrow> Page p | None \<Rightarrow> Unknown)) \<and>
     (\<forall>llm'. \<exists>res' w''. query emb distance llm' question project_id w = (Inr res', w'') \<and>
        sources res' = sources res)"
proof -
  define docs where "docs = similarity_search distance vs (emb question) 5"
  have len: "length (map format_source docs) \<le> 5"
    by (simp add: docs_def similarity_search_def)
  have from_index: "\<forall>s\<in>set (map format_source docs). \<exists>d\<in>set (docstore_values vs).
        content s = page_content d \<and>
        source_metadata s = metadata d \<and>
        map_of (source_metadata s) ''file_id'' = map_of (metadata d) ''file_id'' \<and>
        map_of (source_metadata s) ''chunk_index'' = map_of (metadata d) ''chunk_index'' \<and>
        page s = (case map_of (metadata d) ''estimated_page'' of
                    Some p \<Rightarrow> Page p | None \<Rightarrow> Unknown)"
  proof
    fix s assume "s \<in> set (map format_source docs)"
    then obtain d where d: "d \<in> set docs" and s: "s = format_source d" by auto
    have "d \<in> set (docstore_values vs)"
      using d set_similarity_search[of distance vs "emb question" 5] by (auto simp: docs_def)
    then show "\<exists>d\<in>set (docstore_values vs).
        content s = page_content d \<and>
        source_metadata s = metadata d \<and>
        map_of (source_metadata s) ''file_id'' = map_of (metadata d) ''file_id'' \<and>
        map_of (source_metadata s) ''chunk_index'' = map_of (metadata d) ''chunk_index'' \<and>
        page s = (case map_of (metadata d) ''estimated_page'' of
                    Some p \<Rightarrow> Page p | None \<Rightarrow> Unknown)"
      unfolding s by (intro bexI[of _ d]) (simp_all add: format_source_def)
  qed
  show ?thesis
    unfolding query_with_index[OF assms]
    using len from_index by (simp add: docs_def)
qed

theorem query_sources_from_index_witness:
  "files \<lparr>files = [1 \<mapsto> Pickled [(5::nat, \<lparr>page_content = ''a b c'',
                                              metadata = [(''file_id'', 7), (''chunk_index'', 0),
                                                          (''estimated_page'', 1), (''word_count'', 3)]\<rparr>)]],
          embed_calls = [], llm_calls = [], qa_chain = None\<rparr> 1 =
     Some (Pickled [(5, \<lparr>page_content = ''a b c'',
                          metadata = [(''file_id'', 7), (''chunk_index'', 0),
                                      (''estimated_page'', 1), (''word_count'', 3)]\<rparr>)])
   \<and> (\<exists>res w'. query length (\<lambda>a b. if a \<le> b then b - a else a - b) (\<lambda>q docs. ''generated'')
                   ''what?'' 1
                   \<lparr>files = [1 \<mapsto> Pickled [(5::nat, \<lparr>page_content = ''a b c'',
                                              metadata = [(''file_id'', 7), (''chunk_index'', 0),
                                                          (''estimated_page'', 1), (''word_count'', 3)]\<rparr>)]],
                    embed_calls = [], llm_calls = [], qa_chain = None\<rparr> = (Inr res, w')
        \<and> length (sources res) \<le> 5
        \<and> sources res =
            [\<lparr>content = ''a b c'',
              source_metadata = [(''file_id'', 7), (''chunk_index'', 0),
                                 (''estimated_page'', 1), (''word_count'', 3)],
              page = Page 1\<rparr>])"
proof -
  define w :: "nat world" where
    "w = \<lparr>files = [1 \<mapsto> Pickled [(5::nat, \<lparr>page_content = ''a b c'',
                                              metadata = [(''file_id'', 7), (''chunk_index'', 0),
                                                          (''estimated_page'', 1), (''word_count'', 3)]\<rparr>)]],
          embed_calls = [], llm_calls = [], qa_chain = None\<rparr>"
  have h: "files w 1 =
     Some (Pickled [(5, \<lparr>page_content = ''a b c'',
                          metadata = [(''file_id'', 7), (''chunk_index'', 0),
                                      (''estimated_page'', 1), (''word_count'', 3)]\<rparr>)])"
    by (simp add: w_def)
  obtain res w' where
    q: "query length (\<lambda>a b. if a \<le> b then b - a else a - b) (\<lambda>q docs. ''generated'')
          ''what?'' 1 w = (Inr res, w')"
    and l: "length (sources res) \<le> 5"
    and s: "sources res = map format_source
              (similarity_search (\<lambda>a b. if a \<le> b then b - a else a - b)
                 [(5, \<lparr>page_content = ''a b c'',
                         metadata = [(''file_id'', 7), (''chunk_index'', 0),
                                     (''estimated_page'', 1), (''word_count'', 3)]\<rparr>)]
                 (length ''what?'') 5)"
    using query_sources_from_index[OF h, of length "\<lambda>a b. if a \<le> b then b - a else a - b"
        "\<lambda>q docs. ''generated''" "''what?''"]
    by blast
  have "sources res =
            [\<lparr>content = ''a b c'',
              source_metadata = [(''file_id'', 7), (''chunk_index'', 0),
                                 (''estimated_page'', 1), (''word_count'', 3)],
              page = Page 1\<rparr>]"
    unfolding s by (simp add: similarity_search_def format_source_def)
  then show ?thesis
    using h q l unfolding w_def by blast
qed

subsection \<open>Project statistics\<close>

lemma stats_loop_result:
  "stats_loop docs ids n =
     (fst (stats_loop docs ids n), n + int (length docs))
   \<and> set (fst (stats_loop docs ids n)) =
       set ids \<union> set (List.map_filter (\<lambda>d. map_of (metadata d) ''file_id'') docs)
   \<and> (distinct ids \<longrightarrow> distinct (fst (stats_loop docs ids n)))"
proof (induction docs arbitrary: ids n)
  case Nil
  show ?case by (simp add: map_filter_simps)
next
  case (Cons doc docs)
  show ?case
  proof (cases "map_of (metadata doc) ''file_id''")
    case None
    then show ?thesis
      using Cons.IH[of ids "n + 1"] by (simp add: map_filter_simps add.assoc)
  next
    case (Some f)
    then show ?thesis
      using Cons.IH[of "List.insert f ids" "n + 1"] by (auto simp: map_filter_simps add.assoc)
  qed
qed

text \<open>
  Claim C9. For a project with no index file, \<open>get_project_stats\<close> returns
  \<open>total_documents = 0\<close>, \<open>total_chunks = 0\<close> and no file ids. For a project whose index
  file holds an index, it returns \<open>total_chunks\<close> equal to the number of entries of the
  index, \<open>file_ids\<close> listing without repetition exactly the file ids found in the
  metadata of those entries, and \<open>total_documents\<close> equal to the number of those distinct
  file ids.
\<close>

theorem get_project_stats_counts:
  "(files w project_id = None \<longrightarrow>
      get_project_stats project_id w =
        Inr \<lparr>total_documents = 0, total_chunks = 0, file_ids = []\<rparr>)
   \<and> (files w project_id = Some (Pickled vs) \<longrightarrow>
        (\<exists>st. get_project_stats project_id w = Inr st \<and>
           total_chunks st = int (length vs) \<and>
           set (file_ids st) = set (entry_file_ids vs) \<and>
           distinct (file_ids st) \<and>
           total_documents st = int (card (set (entry_file_ids vs)))))"
proof (intro conjI impI)
  assume "files w project_id = None"
  then show "get_project_stats project_id w =
        Inr \<lparr>total_documents = 0, total_chunks = 0, file_ids = []\<rparr>"
    by (simp add: get_project_stats_def load_vectorstore_def)
next
  assume f: "files w project_id = Some (Pickled vs)"
  define ids where "ids = fst (stats_loop (docstore_values vs) [] 0)"
  have loop: "stats_loop (docstore_values vs) [] 0 = (ids, int (length vs))"
    and ids: "set ids = set (entry_file_ids vs)" and d: "distinct ids"
    using stats_loop_result[of "docstore_values vs" "[]" 0]
    by (simp_all add: ids_def entry_file_ids_def docstore_values_def)
  have "get_project_stats project_id w =
        Inr \<lparr>total_documents = int (length ids), total_chunks = int (length vs), file_ids = ids\<rparr>"
    using f loop by (simp add: get_project_stats_def load_vectorstore_def)
  moreover have "length ids = card (set (entry_file_ids vs))"
    using d ids by (metis distinct_card)
  ultimately show "\<exists>st. get_project_stats project_id w = Inr st \<and>
           total_chunks st = int (length vs) \<and>
           set (file_ids st) = set (entry_file_ids vs) \<and>
           distinct (file_ids st) \<and>
           total_documents st = int (card (set (entry_file_ids vs)))"
    using ids d by simp
qed

theorem get_project_stats_counts_witness:
  "files \<lparr>files = [1 \<mapsto> Pickled [(5::nat, \<lparr>page_content = ''a b c'', metadata = [(''file_id'', 7)]\<rparr>),
                                  (3, \<lparr>page_content = ''g h'', metadata = [(''file_id'', 8)]\<rparr>),
                                  (1, \<lparr>page_content = ''c'', metadata = [(''file_id'', 7)]\<rparr>)]],
          embed_calls = [], llm_calls = [], qa_chain = None\<rparr> 2 = None
   \<and> get_project_stats 2
        \<lparr>files = [1 \<mapsto> Pickled [(5::nat, \<lparr>page_content = ''a b c'', metadata = [(''file_id'', 7)]\<rparr>),
                                  (3, \<lparr>page_content = ''g h'', metadata = [(''file_id'', 8)]\<rparr>),
                                  (1, \<lparr>page_content = ''c'', metadata = [(''file_id'', 7)]\<rparr>)]],
          embed_calls = [], llm_calls = [], qa_chain = None\<rparr> =
       Inr \<lparr>total_documents = 0, total_chunks = 0, file_ids = []\<rparr>
   \<and> (\<exists>st. get_project_stats 1
        \<lparr>files = [1 \<mapsto> Pickled [(5::nat, \<lparr>page_content = ''a b c'', metadata = [(''file_id'', 7)]\<rparr>),
                                  (3, \<lparr>page_content = ''g h'', metadata = [(''file_id'', 8)]\<rparr>),
                                  (1, \<lparr>page_content = ''c'', metadata = [(''file_id'', 7)]\<rparr>)]],
          embed_calls = [], llm_calls = [], qa_chain = None\<rparr> = Inr st
        \<and> total_chunks st = 3 \<and> set (file_ids st) = {7, 8} \<and> total_documents st = 2)"
proof -
  define vs :: "nat vectorstore" where
    "vs = [(5, \<lparr>page_content = ''a b c'', metadata = [(''file_id'', 7)]\<rparr>),
           (3, \<lparr>page_content = ''g h'', metadata = [(''file_id'', 8)]\<rparr>),
           (1, \<lparr>page_content = ''c'', metadata = [(''file_id'', 7)]\<rparr>)]"
  define w :: "nat world" where
    "w = \<lparr>files = [1 \<mapsto> Pickled vs], embed_calls = [], llm_calls = [], qa_chain = None\<rparr>"
  have h1: "files w 2 = None" and h2: "files w 1 = Some (Pickled vs)"
    by (simp_all add: w_def)
  have e: "set (entry_file_ids vs) = {7, 8}"
    by (auto simp: entry_file_ids_def docstore_values_def vs_def map_filter_simps)
  then have c: "card (set (entry_file_ids vs)) = 2" by simp
  have "get_project_stats 2 w = Inr \<lparr>total_documents = 0, total_chunks = 0, file_ids = []\<rparr>"
    using get_project_stats_counts[of w 2 vs] h1 by blast
  moreover have "\<exists>st. get_project_stats 1 w = Inr st
        \<and> total_chunks st = 3 \<and> set (file_ids st) = {7, 8} \<and> total_documents st = 2"
  proof -
    obtain st where "get_project_stats 1 w = Inr st" "total_chunks st = int (length vs)"
      "set (file_ids st) = set (entry_file_ids vs)"
      "total_documents st = int (card (set (entry_file_ids vs)))"
      using get_project_stats_counts[of w 1 vs] h2 by blast
    then show ?thesis using e c by (auto simp: vs_def)
  qed
  ultimately show ?thesis
    using h1 unfolding w_def vs_def by blast
qed

subsection \<open>The index file while documents are added\<close>

text \<open>
  Claim C7, as the code has it. When the project's index file is absent or holds a
  complete index, \<open>add_documents_to_project\<close> passes through five worlds and returns the
  merged index. After embedding the new fragment and after merging, every index file is
  exactly as before the call: a crash up to there loses the new fragment only. Saving
  opens the project's file for writing, which cuts it: from then until \<open>pickle.dump\<close> has
  finished the project's file holds no complete index, and a later load of it fails; the
  files of the other projects are untouched. Once the dump has finished the project's
  file holds the merged index.
\<close>

theorem add_documents_to_project_file_states:
  fixes emb :: "string \<Rightarrow> 'v" and w :: "'v world"
    and chunks :: "chunk list" and file_id project_id :: int
    and existing :: "'v vectorstore option"
  defines "states \<equiv> add_documents_to_project_states emb chunks file_id project_id w"
    and "merged \<equiv> fst (merge_vectorstores emb existing
                          (fst (create_embeddings emb chunks file_id w))
                          (snd (create_embeddings emb chunks file_id w)))"
  assumes "load_vectorstore project_id w = Inr existing"
  shows "length states = 5 \<and>
     add_documents_to_project emb chunks file_id project_id w = (Inr merged, states ! 4) \<and>
     files (states ! 0) = files w \<and>
     files (states ! 1) = files w \<and>
     files (states ! 2) = (files w)(project_id \<mapsto> Incomplete) \<and>
     load_vectorstore project_id (states ! 2) = Inl UnpicklingError \<and>
     files (states ! 3) = (files w)(project_id \<mapsto> Pickled merged) \<and>
     files (states ! 4) = files (states ! 3)"
proof -
  define new where "new = fst (create_embeddings emb chunks file_id w)"
  define w1 where "w1 = snd (create_embeddings emb chunks file_id w)"
  define w2 where "w2 = snd (merge_vectorstores emb existing new w1)"
  have mg: "merged = fst (merge_vectorstores emb existing new w1)"
    by (simp add: merged_def new_def w1_def)
  have f1: "files w1 = files w"
    by (simp add: w1_def create_embeddings_def Let_def)
  have l1: "load_vectorstore project_id w1 = Inr existing"
    using assms f1 by (simp add: load_vectorstore_def)
  have f2: "files w2 = files w"
    using f1 by (cases existing) (simp_all add: w2_def merge_vectorstores_def)
  have c: "create_embeddings emb chunks file_id w = (new, w1)"
    by (simp add: new_def w1_def)
  have m: "merge_vectorstores emb existing new w1 = (merged, w2)"
    by (simp add: mg w2_def)
  have st: "states =
        [w1, w2, open_wb project_id w2,
         pickle_dump merged project_id (open_wb project_id w2),
         setup_qa_chain merged (pickle_dump merged project_id (open_wb project_id w2))]"
    by (simp add: states_def add_documents_to_project_states_def c l1 m Let_def)
  have run: "add_documents_to_project emb chunks file_id project_id w =
        (Inr merged, setup_qa_chain merged (pickle_dump merged project_id (open_wb project_id w2)))"
    by (simp add: add_documents_to_project_def c l1 m Let_def save_vectorstore_def)
  have f3: "files (open_wb project_id w2) = (files w)(project_id \<mapsto> Incomplete)"
    by (simp add: open_wb_def f2)
  have l3: "load_vectorstore project_id (open_wb project_id w2) = Inl UnpicklingError"
    by (simp add: load_vectorstore_def f3)
  have f4: "files (pickle_dump merged project_id (open_wb project_id w2)) =
            (files w)(project_id \<mapsto> Pickled merged)"
    by (simp add: pickle_dump_def f3)
  have f5: "files (setup_qa_chain merged (pickle_dump merged project_id (open_wb project_id w2))) =
            files (pickle_dump merged project_id (open_wb project_id w2))"
    by (simp add: setup_qa_chain_def)
  show ?thesis
    unfolding st using run f1 f2 f3 l3 f4 f5 by simp
qed

theorem add_documents_to_project_file_states_witness:
  "load_vectorstore 1
     \<lparr>files = [1 \<mapsto> Pickled [(5::nat, \<lparr>page_content = ''a b c'', metadata = [(''file_id'', 7)]\<rparr>)]],
      embed_calls = [], llm_calls = [], qa_chain = None\<rparr> =
     Inr (Some [(5, \<lparr>page_content = ''a b c'', metadata = [(''file_id'', 7)]\<rparr>)])
   \<and> length (add_documents_to_project_states length
          [\<lparr>text_field = ''g h'', chunk_index = 0, estimated_page = 1, word_count = 2\<rparr>] 8 1
          \<lparr>files = [1 \<mapsto> Pickled [(5::nat, \<lparr>page_content = ''a b c'', metadata = [(''file_id'', 7)]\<rparr>)]],
           embed_calls = [], llm_calls = [], qa_chain = None\<rparr>) = 5
   \<and> files (add_documents_to_project_states length
          [\<lparr>text_field = ''g h'', chunk_index = 0, estimated_page = 1, word_count = 2\<rparr>] 8 1
          \<lparr>files = [1 \<mapsto> Pickled [(5::nat, \<lparr>page_content = ''a b c'', metadata = [(''file_id'', 7)]\<rparr>)]],
           embed_calls = [], llm_calls = [], qa_chain = None\<rparr> ! 1) 1 =
       Some (Pickled [(5, \<lparr>page_content = ''a b c'', metadata = [(''file_id'', 7)]\<rparr>)])
   \<and> files (add_documents_to_project_states length
          [\<lparr>text_field = ''g h'', chunk_index = 0, estimated_page = 1, word_count = 2\<rparr>] 8 1
          \<lparr>files = [1 \<mapsto> Pickled [(5::nat, \<lparr>page_content = ''a b c'', metadata = [(''file_id'', 7)]\<rparr>)]],
           embed_calls = [], llm_calls = [], qa_chain = None\<rparr> ! 3) 1 =
       Some (Pickled [(5, \<lparr>page_content = ''a b c'', metadata = [(''file_id'', 7)]\<rparr>),
                      (3, \<lparr>page_content = ''g h'',
                             metadata = [(''file_id'', 8), (''chunk_index'', 0),
                                         (''estimated_page'', 1), (''word_count'', 2)]\<rparr>)])"
proof -
  define E :: "nat vectorstore" where
    "E = [(5, \<lparr>page_content = ''a b c'', metadata = [(''file_id'', 7)]\<rparr>)]"
  define w :: "nat world" where
    "w = \<lparr>files = [1 \<mapsto> Pickled E], embed_calls = [], llm_calls = [], qa_chain = None\<rparr>"
  define chunks where
    "chunks = [\<lparr>text_field = ''g h'', chunk_index = 0, estimated_page = 1, word_count = 2\<rparr>]"
  have h: "load_vectorstore 1 w = Inr (Some E)"
    by (simp add: load_vectorstore_def w_def)
  have m: "fst (merge_vectorstores length (Some E)
                 (fst (create_embeddings length chunks 8 w))
                 (snd (create_embeddings length chunks 8 w))) =
           [(5, \<lparr>page_content = ''a b c'', metadata = [(''file_id'', 7)]\<rparr>),
            (3, \<lparr>page_content = ''g h'',
                   metadata = [(''file_id'', 8), (''chunk_index'', 0),
                               (''estimated_page'', 1), (''word_count'', 2)]\<rparr>)]"
    by (simp add: merge_vectorstores_def add_documents_def docstore_values_def
        create_embeddings_def from_texts_def chunks_def E_def)
  have fw: "files w 1 = Some (Pickled E)" by (simp add: w_def)
  note t = add_documents_to_project_file_states[OF h, of length chunks 8, unfolded m]
  have "length (add_documents_to_project_states length chunks 8 1 w) = 5"
    using t by simp
  moreover have "files (add_documents_to_project_states length chunks 8 1 w ! 1) 1 =
                 Some (Pickled E)"
    using t fw by simp
  moreover have "files (add_documents_to_project_states length chunks 8 1 w ! 3) 1 =
       Some (Pickled [(5, \<lparr>page_content = ''a b c'', metadata = [(''file_id'', 7)]\<rparr>),
                      (3, \<lparr>page_content = ''g h'',
                             metadata = [(''file_id'', 8), (''chunk_index'', 0),
                                         (''estimated_page'', 1), (''word_count'', 2)]\<rparr>)])"
    using t by simp
  ultimately show ?thesis
    using h unfolding w_def E_def chunks_def by simp
qed

text \<open>
  The claim as stated keeps the committed index untouched until the new save has
  completed. For a project whose file holds a one-entry index, the world reached after
  \<open>open(index_path, "wb")\<close> and before \<open>pickle.dump\<close> has finished (the third of the
  worlds passed through) has a project file that holds no complete index, and loading it
  fails: the committed index is lost at that point.
\<close>

theorem add_documents_to_project_crash_in_save:
  "files (add_documents_to_project_states length
            [\<lparr>text_field = ''g h'', chunk_index = 0, estimated_page = 1, word_count = 2\<rparr>] 8 1
            \<lparr>files = [1 \<mapsto> Pickled [(5::nat, \<lparr>page_content = ''a b c'',
                                                 metadata = [(''file_id'', 7)]\<rparr>)]],
             embed_calls = [], llm_calls = [], qa_chain = None\<rparr> ! 2) 1 = Some Incomplete
   \<and> load_vectorstore 1
       (add_documents_to_project_states length
            [\<lparr>text_field = ''g h'', chunk_index = 0, estimated_page = 1, word_count = 2\<rparr>] 8 1
            \<lparr>files = [1 \<mapsto> Pickled [(5::nat, \<lparr>page_content = ''a b c'',
                                                 metadata = [(''file_id'', 7)]\<rparr>)]],
             embed_calls = [], llm_calls = [], qa_chain = None\<rparr> ! 2) = Inl UnpicklingError"
  by (simp add: add_documents_to_project_states_def create_embeddings_def load_vectorstore_def
      merge_vectorstores_def open_wb_def Let_def)

end
